theory Spec2Isabelle
  imports Main
begin

section \<open>The Task entity (main.go, type Task)\<close>

text \<open>
  The Go struct \<^verbatim>\<open>Task\<close> with its five fields. Go strings are byte sequences, as
  HOL strings are. The identifier is an \<^verbatim>\<open>int\<close> (64 bits on the platforms the
  service targets); the store never hands out a key beyond the signed 64-bit range
  (see \<open>db_Exec_insert\<close>), so the conversion \<^verbatim>\<open>int(taskID)\<close> is the identity
  and the field is modelled by \<^typ>\<open>int\<close>.
\<close>

record Task =
  ID :: int
  Title :: string
  Description :: string
  DueDate :: string
  Status :: string

section \<open>The standard library: time.Parse and Time.Format for the layout 2006-01-02\<close>

text \<open>
  \<^verbatim>\<open>createTask\<close> calls \<^verbatim>\<open>time.Parse("2006-01-02", s)\<close> and then
  \<^verbatim>\<open>Format("2006-01-02")\<close>. The layout has the chunks: four-digit year
  (stdLongYear), the literal \<^verbatim>\<open>-\<close>, two-digit month (stdZeroMonth), the
  literal \<^verbatim>\<open>-\<close>, two-digit day (stdZeroDay). The definitions below follow the
  helpers of package \<^verbatim>\<open>time\<close> (isDigit, leadingInt, atoi, getnum, skip, isLeap,
  daysIn, appendInt) on that layout. A parsed \<^verbatim>\<open>Time\<close> is kept as its civil
  date in UTC, which is all the layout reads back.
\<close>

definition isDigit :: "string \<Rightarrow> nat \<Rightarrow> bool" where
  "isDigit s i =
     (if length s \<le> i then False
      else (48::nat) \<le> of_char (s ! i) \<and> of_char (s ! i) \<le> (57::nat))"

definition digit_of :: "char \<Rightarrow> nat" where
  "digit_of c = of_char c - 48"

text \<open>
  \<^verbatim>\<open>leadingInt\<close>: the leading decimal digits of the text as an unsigned number and
  the rest of the text; an error when the number passes \<open>2 ^ 63 = 9223372036854775808\<close>
  (the first bound is \<open>2 ^ 63 div 10\<close>).
\<close>

fun leadingInt :: "nat \<Rightarrow> string \<Rightarrow> (nat \<times> string) option" where
  "leadingInt x [] = Some (x, [])"
| "leadingInt x (c # cs) =
     (if (of_char c :: nat) < 48 \<or> (57::nat) < of_char c then Some (x, c # cs)
      else if x > 922337203685477580 then None
      else (let x' = x * 10 + of_char c - 48
            in if x' > 9223372036854775808 then None else leadingInt x' cs))"

definition atoi :: "string \<Rightarrow> int option" where
  "atoi s0 =
     (let neg = (s0 \<noteq> [] \<and> hd s0 = CHR ''-'');
          s = (if s0 \<noteq> [] \<and> (hd s0 = CHR ''-'' \<or> hd s0 = CHR ''+'') then tl s0 else s0)
      in case leadingInt 0 s of
           None \<Rightarrow> None
         | Some (q, rem) \<Rightarrow>
             if rem \<noteq> [] then None
             else Some (if neg then - int q else int q))"

definition getnum :: "string \<Rightarrow> bool \<Rightarrow> (nat \<times> string) option" where
  "getnum s fixed =
     (if \<not> isDigit s 0 then None
      else if \<not> isDigit s 1 then
        (if fixed then None else Some (digit_of (s ! 0), drop 1 s))
      else Some (digit_of (s ! 0) * 10 + digit_of (s ! 1), drop 2 s))"

text \<open>\<^verbatim>\<open>skip\<close> for a prefix without blanks (the layout's literals are \<^verbatim>\<open>-\<close>).\<close>

fun skip :: "string \<Rightarrow> string \<Rightarrow> string option" where
  "skip v [] = Some v"
| "skip [] (p # ps) = None"
| "skip (c # cs) (p # ps) = (if c \<noteq> p then None else skip cs ps)"

definition isLeap :: "nat \<Rightarrow> bool" where
  "isLeap year = (year mod 4 = 0 \<and> (year mod 100 \<noteq> 0 \<or> year mod 400 = 0))"

definition daysIn :: "nat \<Rightarrow> nat \<Rightarrow> nat" where
  "daysIn m year =
     (if m = 2 then (if isLeap year then 29 else 28)
      else if m = 4 \<or> m = 6 \<or> m = 9 \<or> m = 11 then 30
      else 31)"

record Time =
  year :: nat
  month :: nat
  day :: nat

definition time_Parse :: "string \<Rightarrow> Time option" where
  "time_Parse v =
     (if length v < 4 \<or> \<not> isDigit v 0 then None
      else case atoi (take 4 v) of
        None \<Rightarrow> None
      | Some y \<Rightarrow>
     (case skip (drop 4 v) ''-'' of
        None \<Rightarrow> None
      | Some v1 \<Rightarrow>
     (case getnum v1 True of
        None \<Rightarrow> None
      | Some (m, v2) \<Rightarrow>
          if m \<le> 0 \<or> 12 < m then None
          else
     (case skip v2 ''-'' of
        None \<Rightarrow> None
      | Some v3 \<Rightarrow>
     (case getnum v3 True of
        None \<Rightarrow> None
      | Some (dd, v4) \<Rightarrow>
          if v4 \<noteq> [] then None
          else if dd < 1 \<or> daysIn m (nat y) < dd then None
          else Some \<lparr>year = nat y, month = m, day = dd\<rparr>)))))"

text \<open>
  \<^verbatim>\<open>appendInt\<close> on a non-negative number: the two fast paths of the library (width
  2 below 100, width 4 below 10000) and the general path, which pads the decimal digits
  with zeros up to the width.
\<close>

definition digit_char :: "nat \<Rightarrow> char" where
  "digit_char n = char_of (48 + n mod 10)"

function decimal :: "nat \<Rightarrow> string" where
  "decimal n = (if n < 10 then [digit_char n] else decimal (n div 10) @ [digit_char n])"
  by pat_completeness auto
termination
  by (relation "measure id") auto

definition appendInt :: "string \<Rightarrow> nat \<Rightarrow> nat \<Rightarrow> string" where
  "appendInt b u width =
     (if width = 2 \<and> u < 100 then b @ [digit_char (u div 10), digit_char u]
      else if width = 4 \<and> u < 10000 then
        b @ [digit_char (u div 100 div 10), digit_char (u div 100),
             digit_char (u mod 100 div 10), digit_char (u mod 100)]
      else b @ replicate (width - length (decimal u)) CHR ''0'' @ decimal u)"

definition time_Format :: "Time \<Rightarrow> string" where
  "time_Format t =
     appendInt (appendInt (appendInt [] (year t) 4 @ ''-'') (month t) 2 @ ''-'') (day t) 2"

section \<open>The engine: how SQLite reads a text as a number\<close>

text \<open>
  The table is created with \<^verbatim>\<open>id INTEGER PRIMARY KEY\<close> and \<^verbatim>\<open>due_date DATE\<close>, and
  the handlers bind Go strings only. Two places of main.go therefore depend on how the
  engine reads a text as a number: the comparison \<^verbatim>\<open>WHERE id = ?\<close> of the integer key
  with the bound path parameter, and the numeric affinity that the declared type
  \<^verbatim>\<open>DATE\<close> gives the due_date column. In both the engine converts a text that is a
  well-formed number and leaves any other text alone. \<open>sqlite3AtoF\<close> is the engine's
  recogniser of that shape (the routine of the same name, where it returns a positive
  code): blanks, an optional sign, digits, an optional point with digits, an optional
  exponent with at least one digit, blanks, and at least one digit before the exponent.
  It returns the parts of the literal.
\<close>

definition is_digit_char :: "char \<Rightarrow> bool" where
  "is_digit_char c = ((48::nat) \<le> of_char c \<and> of_char c \<le> (57::nat))"

definition sqlite3Isdigit :: "char \<Rightarrow> bool" where
  "sqlite3Isdigit c = is_digit_char c"

definition sqlite3Isspace :: "char \<Rightarrow> bool" where
  "sqlite3Isspace c = (c = CHR '' '' \<or> ((9::nat) \<le> of_char c \<and> of_char c \<le> (13::nat)))"

record literal =
  negative :: bool
  int_digits :: string
  frac_digits :: "string option"
  exponent :: "(bool \<times> string) option"

definition signed :: "string \<Rightarrow> bool \<times> string" where
  "signed z =
     (case z of
        [] \<Rightarrow> (False, [])
      | c # cs \<Rightarrow>
          if c = CHR ''-'' then (True, cs) else if c = CHR ''+'' then (False, cs) else (False, z))"

definition sqlite3AtoF :: "string \<Rightarrow> literal option" where
  "sqlite3AtoF z =
     (let z1 = dropWhile sqlite3Isspace z in
      if z1 = [] then None
      else
        (case signed z1 of
           (neg, z2) \<Rightarrow>
        (let ds = takeWhile sqlite3Isdigit z2;
             z3 = dropWhile sqlite3Isdigit z2 in
         case (case z3 of
                 [] \<Rightarrow> (None, [])
               | c # cs \<Rightarrow>
                   if c = CHR ''.''
                   then (Some (takeWhile sqlite3Isdigit cs), dropWhile sqlite3Isdigit cs)
                   else (None, z3)) of
           (fr, z4) \<Rightarrow>
        (case (case z4 of
                 [] \<Rightarrow> (None, [])
               | c # cs \<Rightarrow>
                   if c = CHR ''e'' \<or> c = CHR ''E''
                   then (case signed cs of
                           (eneg, z') \<Rightarrow>
                             (Some (eneg, takeWhile sqlite3Isdigit z'),
                              dropWhile sqlite3Isdigit z'))
                   else (None, z4)) of
           (ex, z5) \<Rightarrow>
             if dropWhile sqlite3Isspace z5 = [] \<and>
                (ds \<noteq> [] \<or> (fr \<noteq> None \<and> fr \<noteq> Some [])) \<and>
                (case ex of None \<Rightarrow> True | Some (eneg, es) \<Rightarrow> es \<noteq> [])
             then Some \<lparr>negative = neg, int_digits = ds, frac_digits = fr, exponent = ex\<rparr>
             else None))))"

text \<open>
  \<^verbatim>\<open>WHERE id = ?\<close> with a bound text. A text that is no well-formed number equals no
  integer key. A well-formed integer within the signed 64-bit range is that integer; so
  is a literal without exponent whose fraction is all zeros, of at most 15 digits (its
  value is exact as a double). For the literals left (an exponent, a fraction with other
  digits, more digits than a double holds exactly, an integer outside the key range) the
  outcome rests on the engine's floating point arithmetic; it is the parameter
  \<open>other\<close>.
\<close>

definition digits_value :: "string \<Rightarrow> nat" where
  "digits_value ds = foldl (\<lambda>n c. n * 10 + digit_of c) 0 ds"

definition sqlite_key :: "(string \<Rightarrow> int option) \<Rightarrow> string \<Rightarrow> int option" where
  "sqlite_key other s =
     (case sqlite3AtoF s of
        None \<Rightarrow> None
      | Some l \<Rightarrow>
          (let v = (if negative l then - int (digits_value (int_digits l))
                    else int (digits_value (int_digits l)))
           in if frac_digits l = None \<and> exponent l = None \<and>
                 - 9223372036854775808 \<le> v \<and> v \<le> 9223372036854775807
              then Some v
              else if exponent l = None \<and> int_digits l \<noteq> [] \<and>
                      (case frac_digits l of
                         None \<Rightarrow> False
                       | Some fs \<Rightarrow>
                           list_all (\<lambda>c. c = CHR ''0'') fs \<and>
                           length (int_digits l) + length fs \<le> 15)
              then Some v
              else other s))"

section \<open>The store: table MANAGEMENT behind database/sql and its SQLite driver\<close>

text \<open>
  The relational engine and its driver (package go-sqlite3, imported by main.go) are
  external to main.go. The model gives the five SQL statements of the handlers their
  relational reading, with the conversions that the schema of main.go brings about:
  \<^item> \<open>rows\<close> is the table in scan order. The key column is
    \<^verbatim>\<open>INTEGER PRIMARY KEY AUTOINCREMENT\<close>: a new row gets the key \<open>seq + 1\<close>,
    where \<open>seq\<close> is the largest key ever handed out, so keys are never reused and the
    scan order is the insertion order. The engine refuses an insert once the largest
    signed 64-bit key has been used.
  \<^item> The columns title, description and status are declared \<^verbatim>\<open>TEXT\<close>: they hold the
    bound text and \<^verbatim>\<open>Scan\<close> gives it back unchanged.
  \<^item> The column due_date is declared \<^verbatim>\<open>DATE\<close>. On a write it has numeric affinity
    (\<open>date_affinity\<close>): a bound text that is a well-formed number is stored as that
    number, any other text as it is. On a read the driver takes a column declared
    \<^verbatim>\<open>DATE\<close> for a time, and \<^verbatim>\<open>Scan\<close> into a Go string formats that time with
    the layout RFC3339Nano (\<open>date_Scan\<close>).
  \<^item> The handlers bind the path parameter, a text, against the integer key in
    \<^verbatim>\<open>WHERE id = ?\<close>. The reading of the text as a key is the parameter \<open>key_of\<close> of
    every statement with that clause (\<open>None\<close>: the text equals no key);
    \<open>sqlite_key\<close> above is the engine's.
  \<^item> Any call of the driver may fail (I/O, locking, a closed handle). \<open>faults\<close> lists
    the outcome of the calls to come, \<open>True\<close> for a failure; when the list is used up
    the calls succeed.
\<close>

record db =
  rows :: "Task list"
  seq :: int
  faults :: "bool list"

datatype sql_error = ErrNoRows | ErrDriver

definition driver_call :: "db \<Rightarrow> bool \<times> db" where
  "driver_call d = (case faults d of [] \<Rightarrow> (False, d) | f # fs \<Rightarrow> (f, d\<lparr>faults := fs\<rparr>))"

definition where_id :: "(string \<Rightarrow> int option) \<Rightarrow> string \<Rightarrow> Task \<Rightarrow> bool" where
  "where_id key_of taskID r = (key_of taskID = Some (ID r))"

text \<open>
  The due_date column. A row of the table keeps the column's value as a text: a text
  value as it is, a number in the engine's rendering of it. Since a text that is a
  well-formed number is never stored as a text, the two cannot be confused. What is
  modelled in full is what the handlers meet on valid dates and on texts that are no
  date at all:
  \<^item> a text that is no well-formed number is stored as it is;
  \<^item> a stored text that, with one trailing \<^verbatim>\<open>Z\<close> cut off, parses against
    \<^verbatim>\<open>2006-01-02\<close> is read as that day at midnight UTC (the driver tries its other
    layouts first; they all ask for a time of day after the date and fail), which
    RFC3339Nano formats as the date followed by \<^verbatim>\<open>T00:00:00Z\<close>;
  \<^item> a stored text that does not begin with a four-digit year fails every layout of
    the driver, is read as the zero time and formatted as \<^verbatim>\<open>0001-01-01T00:00:00Z\<close>.
  The rest is left to the two parameters of \<open>engine\<close>: \<open>stored_number\<close>, the rendering
  of the number that a well-formed numeric text is stored as, and \<open>scan_else\<close>, what
  \<^verbatim>\<open>Scan\<close> gives for a stored number and for a stored text that begins with a year
  but is no plain date (the driver's layouts with a time of day, Unix times, floating
  point formatting).
\<close>

record engine =
  stored_number :: "string \<Rightarrow> string"
  scan_else :: "string \<Rightarrow> string"

definition date_affinity :: "engine \<Rightarrow> string \<Rightarrow> string" where
  "date_affinity eng s = (if sqlite3AtoF s \<noteq> None then stored_number eng s else s)"

definition TrimSuffix_Z :: "string \<Rightarrow> string" where
  "TrimSuffix_Z s = (if s \<noteq> [] \<and> last s = CHR ''Z'' then butlast s else s)"

definition date_Scan :: "engine \<Rightarrow> string \<Rightarrow> string" where
  "date_Scan eng v =
     (if sqlite3AtoF v \<noteq> None then scan_else eng v
      else
        (let s = TrimSuffix_Z v in
         case time_Parse s of
           Some t \<Rightarrow> time_Format t @ ''T00:00:00Z''
         | None \<Rightarrow>
             if length s < 4 \<or> \<not> isDigit s 0 \<or> atoi (take 4 s) = None
             then ''0001-01-01T00:00:00Z''
             else scan_else eng v))"

text \<open>\<^verbatim>\<open>Scan(&task.ID, &task.Title, &task.Description, &task.DueDate, &task.Status)\<close>
  on a row of the table.\<close>

definition Scan_row :: "engine \<Rightarrow> Task \<Rightarrow> Task" where
  "Scan_row eng r = r\<lparr>DueDate := date_Scan eng (DueDate r)\<rparr>"

text \<open>\<^verbatim>\<open>INSERT INTO MANAGEMENT (title, description, due_date, status) VALUES (?, ?, ?, ?)\<close>,
  with the result's \<^verbatim>\<open>LastInsertId\<close>.\<close>

definition db_Exec_insert ::
  "engine \<Rightarrow> string \<Rightarrow> string \<Rightarrow> string \<Rightarrow> string \<Rightarrow> db \<Rightarrow> (sql_error + int) \<times> db" where
  "db_Exec_insert eng title description due_date status d =
     (case driver_call d of
        (failed, d1) \<Rightarrow>
          if failed \<or> 9223372036854775807 \<le> seq d1 then (Inl ErrDriver, d1)
          else (Inr (seq d1 + 1),
                d1\<lparr>rows := rows d1 @
                       [\<lparr>ID = seq d1 + 1, Title = title, Description = description,
                         DueDate = date_affinity eng due_date, Status = status\<rparr>],
                    seq := seq d1 + 1\<rparr>))"

text \<open>\<^verbatim>\<open>SELECT id, title, description, due_date, status FROM MANAGEMENT WHERE id = ?\<close>
  through \<^verbatim>\<open>QueryRow(...).Scan(...)\<close>: the first matching row as \<^verbatim>\<open>Scan\<close> reads
  it, or an error (\<^verbatim>\<open>sql.ErrNoRows\<close> when none matches).\<close>

definition db_QueryRow_Scan ::
  "(string \<Rightarrow> int option) \<Rightarrow> engine \<Rightarrow> string \<Rightarrow> db \<Rightarrow> (sql_error + Task) \<times> db" where
  "db_QueryRow_Scan key_of eng taskID d =
     (case driver_call d of
        (failed, d1) \<Rightarrow>
          if failed then (Inl ErrDriver, d1)
          else (case filter (where_id key_of taskID) (rows d1) of
                  [] \<Rightarrow> (Inl ErrNoRows, d1)
                | r # _ \<Rightarrow> (Inr (Scan_row eng r), d1)))"

text \<open>\<^verbatim>\<open>UPDATE MANAGEMENT SET title = ?, description = ?, due_date = ?, status = ? WHERE id = ?\<close>,
  with the number of rows affected.\<close>

definition db_Exec_update ::
  "(string \<Rightarrow> int option) \<Rightarrow> engine \<Rightarrow> string \<Rightarrow> string \<Rightarrow> string \<Rightarrow> string \<Rightarrow> string \<Rightarrow> db
     \<Rightarrow> (sql_error + nat) \<times> db" where
  "db_Exec_update key_of eng title description due_date status taskID d =
     (case driver_call d of
        (failed, d1) \<Rightarrow>
          if failed then (Inl ErrDriver, d1)
          else (Inr (length (filter (where_id key_of taskID) (rows d1))),
                d1\<lparr>rows :=
                     map (\<lambda>r. if where_id key_of taskID r
                               then r\<lparr>Title := title, Description := description,
                                      DueDate := date_affinity eng due_date, Status := status\<rparr>
                               else r)
                       (rows d1)\<rparr>))"

text \<open>\<^verbatim>\<open>DELETE FROM MANAGEMENT WHERE id = ?\<close>, with the number of rows affected.\<close>

definition db_Exec_delete ::
  "(string \<Rightarrow> int option) \<Rightarrow> string \<Rightarrow> db \<Rightarrow> (sql_error + nat) \<times> db" where
  "db_Exec_delete key_of taskID d =
     (case driver_call d of
        (failed, d1) \<Rightarrow>
          if failed then (Inl ErrDriver, d1)
          else (Inr (length (filter (where_id key_of taskID) (rows d1))),
                d1\<lparr>rows := filter (\<lambda>r. \<not> where_id key_of taskID r) (rows d1)\<rparr>))"

text \<open>\<^verbatim>\<open>SELECT id, title, description, due_date, status FROM MANAGEMENT\<close>: the cursor
  over the rows of the whole table; \<^verbatim>\<open>rows.Scan\<close> reads the row under the cursor (see
  \<open>scan_loop\<close>).\<close>

definition db_Query :: "db \<Rightarrow> (sql_error + Task list) \<times> db" where
  "db_Query d =
     (case driver_call d of
        (failed, d1) \<Rightarrow> if failed then (Inl ErrDriver, d1) else (Inr (rows d1), d1))"

section \<open>The handlers (main.go)\<close>

text \<open>
  A handler's answer is the pair that \<^verbatim>\<open>c.JSON(status, body)\<close> is called with. The
  body is a \<^verbatim>\<open>gin.H\<close> with the single key \<^verbatim>\<open>error\<close> or \<^verbatim>\<open>message\<close>, a Task
  or a slice of Tasks. The request body is what \<^verbatim>\<open>ShouldBindJSON\<close> makes of it:
  \<open>None\<close> when binding fails, the decoded struct otherwise (absent fields are zero
  values; no field carries a binding tag). Printing to the log is left out.
\<close>

datatype json = H_error string | H_message string | JSON_Task Task | JSON_Tasks "Task list"

type_synonym response = "nat \<times> json"

abbreviation StatusOK :: nat where "StatusOK \<equiv> 200"
abbreviation StatusCreated :: nat where "StatusCreated \<equiv> 201"
abbreviation StatusBadRequest :: nat where "StatusBadRequest \<equiv> 400"
abbreviation StatusNotFound :: nat where "StatusNotFound \<equiv> 404"
abbreviation StatusInternalServerError :: nat where "StatusInternalServerError \<equiv> 500"

definition createTask :: "engine \<Rightarrow> Task option \<Rightarrow> db \<Rightarrow> response \<times> db" where
  "createTask eng body d =
     (case body of
        None \<Rightarrow> ((StatusBadRequest, H_error ''Invalid request payload''), d)
      | Some newTask \<Rightarrow>
          (case time_Parse (DueDate newTask) of
             None \<Rightarrow> ((StatusBadRequest, H_error ''Invalid due_date format''), d)
           | Some dueDate \<Rightarrow>
               (let newTask1 = newTask\<lparr>DueDate := time_Format dueDate\<rparr> in
                case db_Exec_insert eng (Title newTask1) (Description newTask1)
                       (DueDate newTask1) (Status newTask1) d of
                  (Inl err, d1) \<Rightarrow>
                    ((StatusInternalServerError, H_error ''Failed to create task''), d1)
                | (Inr taskID, d1) \<Rightarrow>
                    ((StatusCreated, JSON_Task (newTask1\<lparr>ID := taskID\<rparr>)), d1))))"

definition retrieveTask ::
  "(string \<Rightarrow> int option) \<Rightarrow> engine \<Rightarrow> string \<Rightarrow> db \<Rightarrow> response \<times> db" where
  "retrieveTask key_of eng taskID d =
     (case db_QueryRow_Scan key_of eng taskID d of
        (Inl err, d1) \<Rightarrow> ((StatusNotFound, H_error ''Task not found''), d1)
      | (Inr task, d1) \<Rightarrow> ((StatusOK, JSON_Task task), d1))"

definition updateTask ::
  "(string \<Rightarrow> int option) \<Rightarrow> engine \<Rightarrow> string \<Rightarrow> Task option \<Rightarrow> db \<Rightarrow> response \<times> db" where
  "updateTask key_of eng taskID body d =
     (case body of
        None \<Rightarrow> ((StatusBadRequest, H_error ''Invalid request payload''), d)
      | Some updatedTask \<Rightarrow>
          (case db_QueryRow_Scan key_of eng taskID d of
             (Inl err, d1) \<Rightarrow> ((StatusNotFound, H_error ''Task not found''), d1)
           | (Inr existingTask, d1) \<Rightarrow>
               (case db_Exec_update key_of eng (Title updatedTask) (Description updatedTask)
                       (DueDate updatedTask) (Status updatedTask) taskID d1 of
                  (Inl err, d2) \<Rightarrow>
                    ((StatusInternalServerError, H_error ''Failed to update task''), d2)
                | (Inr n, d2) \<Rightarrow>
                    (case db_QueryRow_Scan key_of eng taskID d2 of
                       (Inl err, d3) \<Rightarrow>
                         ((StatusInternalServerError,
                           H_error ''Failed to retrieve updated task details''), d3)
                     | (Inr updatedTaskDetails, d3) \<Rightarrow>
                         ((StatusOK, JSON_Task updatedTaskDetails), d3)))))"

definition deleteTask :: "(string \<Rightarrow> int option) \<Rightarrow> string \<Rightarrow> db \<Rightarrow> response \<times> db" where
  "deleteTask key_of taskID d =
     (case db_Exec_delete key_of taskID d of
        (Inl err, d1) \<Rightarrow> ((StatusInternalServerError, H_error ''Failed to delete task''), d1)
      | (Inr rowsAffected, d1) \<Rightarrow>
          if rowsAffected = 0 then ((StatusNotFound, H_error ''Task not found''), d1)
          else ((StatusOK, H_message ''Task deleted successfully''), d1))"

text \<open>
  The loop of \<^verbatim>\<open>listAllTasks\<close> over the cursor: \<^verbatim>\<open>rows.Next()\<close> ends the loop when
  the cursor is exhausted and also when stepping it fails (the handler never looks at
  \<^verbatim>\<open>rows.Err()\<close>); a failing \<^verbatim>\<open>rows.Scan\<close> is answered at once, otherwise the row
  as \<^verbatim>\<open>Scan\<close> reads it is appended. \<open>Inl\<close> is the early answer, \<open>Inr\<close> the slice
  collected when the loop ends.
\<close>

fun scan_loop ::
  "engine \<Rightarrow> Task list \<Rightarrow> Task list \<Rightarrow> db \<Rightarrow> (response + Task list) \<times> db" where
  "scan_loop eng [] tasks d = (Inr tasks, d)"
| "scan_loop eng (r # cursor) tasks d =
     (case driver_call d of
        (next_failed, d1) \<Rightarrow>
          if next_failed then (Inr tasks, d1)
          else (case driver_call d1 of
                  (scan_failed, d2) \<Rightarrow>
                    if scan_failed
                    then (Inl (StatusInternalServerError, H_error ''Failed to scan tasks''), d2)
                    else scan_loop eng cursor (tasks @ [Scan_row eng r]) d2))"

definition listAllTasks :: "engine \<Rightarrow> db \<Rightarrow> response \<times> db" where
  "listAllTasks eng d =
     (case db_Query d of
        (Inl err, d1) \<Rightarrow>
          ((StatusInternalServerError, H_error ''Failed to retrieve tasks''), d1)
      | (Inr cursor, d1) \<Rightarrow>
          (case scan_loop eng cursor [] d1 of
             (Inl resp, d2) \<Rightarrow> (resp, d2)
           | (Inr tasks, d2) \<Rightarrow>
               if length tasks > 0 then ((StatusOK, JSON_Tasks tasks), d2)
               else ((StatusOK, H_message ''No tasks found''), d2)))"

text \<open>The routes registered in \<^verbatim>\<open>main\<close>, and a run of the service over a sequence of
  requests.\<close>

datatype request =
    GET_root
  | POST_MANAGEMENT "Task option"
  | GET_MANAGEMENT_id string
  | PUT_MANAGEMENT_id string "Task option"
  | DELETE_MANAGEMENT_id string
  | GET_MANAGEMENT

fun route ::
  "(string \<Rightarrow> int option) \<Rightarrow> engine \<Rightarrow> request \<Rightarrow> db \<Rightarrow> response \<times> db" where
  "route key_of eng GET_root d =
     ((StatusOK, H_message ''Hello, This is Task Management Api''), d)"
| "route key_of eng (POST_MANAGEMENT body) d = createTask eng body d"
| "route key_of eng (GET_MANAGEMENT_id taskID) d = retrieveTask key_of eng taskID d"
| "route key_of eng (PUT_MANAGEMENT_id taskID body) d = updateTask key_of eng taskID body d"
| "route key_of eng (DELETE_MANAGEMENT_id taskID) d = deleteTask key_of taskID d"
| "route key_of eng GET_MANAGEMENT d = listAllTasks eng d"

fun serve ::
  "(string \<Rightarrow> int option) \<Rightarrow> engine \<Rightarrow> request list \<Rightarrow> db
     \<Rightarrow> (request \<times> response) list \<times> db" where
  "serve key_of eng [] d = ([], d)"
| "serve key_of eng (q # qs) d =
     (case route key_of eng q d of
        (resp, d1) \<Rightarrow>
          (case serve key_of eng qs d1 of (log, d2) \<Rightarrow> ((q, resp) # log, d2)))"

text \<open>The store right after \<^verbatim>\<open>CREATE TABLE IF NOT EXISTS\<close> on a fresh file.\<close>

definition fresh_db :: "bool list \<Rightarrow> db" where
  "fresh_db fs = \<lparr>rows = [], seq = 0, faults = fs\<rparr>"

section \<open>Vocabulary of the properties\<close>

text \<open>The store works: none of the driver calls to come fails.\<close>

definition healthy :: "db \<Rightarrow> bool" where
  "healthy d = (True \<notin> set (faults d))"

text \<open>
  The invariant of the table: keys ascend along the scan order (hence are pairwise
  distinct), are positive, and none exceeds the largest key handed out so far.
\<close>

definition wf_db :: "db \<Rightarrow> bool" where
  "wf_db d =
     (sorted_wrt (<) (map ID (rows d)) \<and> list_all (\<lambda>r. 0 < ID r \<and> ID r \<le> seq d) (rows d) \<and>
      0 \<le> seq d)"

text \<open>Every persisted due_date parses against the layout.\<close>

definition due_dates_parse :: "db \<Rightarrow> bool" where
  "due_dates_parse d = list_all (\<lambda>r. time_Parse (DueDate r) \<noteq> None) (rows d)"

text \<open>The persisted row with key \<open>i\<close>, if any.\<close>

definition stored :: "db \<Rightarrow> int \<Rightarrow> Task option" where
  "stored d i = find (\<lambda>r. ID r = i) (rows d)"

text \<open>
  The rows last written, read off a log of requests and answers: a Create answered with
  status created writes the submitted fields under the key it returns; an Update whose
  write was carried out (answered with the re-read row, or with the failure of that
  re-read) overwrites the fields under its key, the due_date under the affinity of its
  column; a Delete answered with its confirmation removes the key. Nothing else writes.
\<close>

definition written ::
  "(string \<Rightarrow> int option) \<Rightarrow> engine \<Rightarrow> request \<times> response \<Rightarrow> (int \<rightharpoonup> Task)
     \<Rightarrow> (int \<rightharpoonup> Task)" where
  "written key_of eng e m =
     (case e of
        (POST_MANAGEMENT (Some p), (code, JSON_Task t)) \<Rightarrow>
          if code = StatusCreated then m(ID t \<mapsto> p\<lparr>ID := ID t\<rparr>) else m
      | (PUT_MANAGEMENT_id taskID (Some p), resp) \<Rightarrow>
          if fst resp = StatusOK \<or>
             resp = (StatusInternalServerError, H_error ''Failed to retrieve updated task details'')
          then (case key_of taskID of
                  None \<Rightarrow> m
                | Some i \<Rightarrow> m(i \<mapsto> p\<lparr>ID := i, DueDate := date_affinity eng (DueDate p)\<rparr>))
          else m
      | (DELETE_MANAGEMENT_id taskID, resp) \<Rightarrow>
          if fst resp = StatusOK
          then (case key_of taskID of None \<Rightarrow> m | Some i \<Rightarrow> m(i := None))
          else m
      | _ \<Rightarrow> m)"

definition last_written ::
  "(string \<Rightarrow> int option) \<Rightarrow> engine \<Rightarrow> (request \<times> response) list \<Rightarrow> (int \<rightharpoonup> Task)
     \<Rightarrow> (int \<rightharpoonup> Task)" where
  "last_written key_of eng log m0 = fold (written key_of eng) log m0"

text \<open>
  Concrete values for the examples: the payload of the specification's example request,
  a store that holds it under key 1, and an engine. The examples bind keys and dates
  that lie within what is modelled in full (plain integers, \<^verbatim>\<open>1.0\<close>, texts that are
  no number, valid dates, texts without a year), so the values chosen here for the
  parameters are never consulted: \<open>example_key\<close> reads every literal left to
  \<open>other\<close> as no key, \<open>example_engine\<close> answers with a question mark.
\<close>

definition milk :: Task where
  "milk = \<lparr>ID = 0, Title = ''Buy milk'', Description = ''2%'', DueDate = ''2025-03-10'',
            Status = ''open''\<rparr>"

definition one_task_db :: db where
  "one_task_db = \<lparr>rows = [milk\<lparr>ID := 1\<rparr>], seq = 1, faults = []\<rparr>"

definition example_key :: "string \<Rightarrow> int option" where
  "example_key = sqlite_key (\<lambda>s. None)"

definition example_engine :: engine where
  "example_engine = \<lparr>stored_number = (\<lambda>s. ''?''), scan_else = (\<lambda>v. ''?'')\<rparr>"

section \<open>Parsing and formatting a date\<close>

text \<open>
  A text that \<open>time_Parse\<close> accepts is ten characters, four digits, a dash, two digits,
  a dash and two digits; formatting the parsed date writes the same ten characters.
\<close>

declare leadingInt.simps(2) [simp del]

lemma digit_of_less:
  assumes "is_digit_char c"
  shows "digit_of c < 10"
proof -
  define n :: nat where "n = of_char c"
  have "48 \<le> n" "n \<le> 57"
    using assms by (simp_all add: is_digit_char_def n_def)
  then have "n - 48 < 10" by simp
  then show ?thesis by (simp add: digit_of_def n_def)
qed

lemma digit_char_digit_of:
  assumes "is_digit_char c"
  shows "digit_char (digit_of c) = c"
proof -
  define n :: nat where "n = of_char c"
  have n: "48 \<le> n" "n \<le> 57"
    using assms by (simp_all add: is_digit_char_def n_def)
  then have "n - 48 < 10" by simp
  then have "(n - 48) mod 10 = n - 48" by simp
  moreover have "48 + (n - 48) = n" using n by simp
  ultimately have "char_of (48 + (n - 48) mod 10) = (char_of n :: char)" by simp
  then show ?thesis by (simp add: digit_char_def digit_of_def n_def)
qed

lemma getnum_fixed:
  assumes "getnum s True = Some (n, r)"
  shows "\<exists>a b. s = a # b # r \<and> is_digit_char a \<and> is_digit_char b \<and>
           n = digit_of a * 10 + digit_of b"
proof (cases s)
  case Nil
  with assms show ?thesis by (simp add: getnum_def isDigit_def)
next
  case (Cons a s')
  show ?thesis
  proof (cases s')
    case Nil
    with Cons assms show ?thesis by (simp add: getnum_def isDigit_def split: if_splits)
  next
    case (Cons b r')
    with \<open>s = a # s'\<close> assms show ?thesis
      by (simp add: getnum_def isDigit_def is_digit_char_def split: if_splits)
  qed
qed

lemma skip_dash: "skip v ''-'' = Some r \<Longrightarrow> v = CHR ''-'' # r"
  by (cases v) (auto split: if_splits)

lemma leadingInt_digit:
  assumes "is_digit_char c" and "x < 1000"
  shows "leadingInt x (c # cs) = leadingInt (x * 10 + digit_of c) cs"
proof -
  define n :: nat where "n = of_char c"
  have n: "48 \<le> n" "n \<le> 57"
    using assms(1) by (simp_all add: is_digit_char_def n_def)
  have 1: "\<not> (n < 48 \<or> 57 < n)" using n by simp
  have 2: "\<not> x > 922337203685477580" using assms(2) by simp
  have 3: "x * 10 + n - 48 = x * 10 + (n - 48)" using n by simp
  have "x * 10 + (n - 48) < 10010" using n assms(2) by simp
  then have 4: "\<not> x * 10 + (n - 48) > 9223372036854775808" by simp
  have "leadingInt x (c # cs) = leadingInt (x * 10 + (n - 48)) cs"
    unfolding leadingInt.simps(2) n_def[symmetric] Let_def 3
    using 1 2 4 by (simp only: if_False)
  then show ?thesis by (simp add: digit_of_def n_def)
qed

lemma leadingInt_nondigit: "\<not> is_digit_char c \<Longrightarrow> leadingInt x (c # cs) = Some (x, c # cs)"
  by (auto simp add: is_digit_char_def leadingInt.simps(2))

lemma leadingInt_4:
  assumes "leadingInt 0 [a, b, c, d] = Some (q, [])"
  shows "is_digit_char a \<and> is_digit_char b \<and> is_digit_char c \<and> is_digit_char d \<and>
         q = digit_of a * 1000 + digit_of b * 100 + digit_of c * 10 + digit_of d"
proof -
  have a: "is_digit_char a"
    using assms by (cases "is_digit_char a") (simp_all add: leadingInt_nondigit)
  note la = digit_of_less[OF a]
  have 1: "leadingInt (digit_of a) [b, c, d] = Some (q, [])"
    using assms a by (simp add: leadingInt_digit)
  have b: "is_digit_char b"
    using 1 by (cases "is_digit_char b") (simp_all add: leadingInt_nondigit)
  note lb = digit_of_less[OF b]
  have ab: "digit_of a * 10 + digit_of b < 1000" using la lb by simp
  have 2: "leadingInt (digit_of a * 10 + digit_of b) [c, d] = Some (q, [])"
    using 1 b la by (simp add: leadingInt_digit)
  have c: "is_digit_char c"
    using 2 by (cases "is_digit_char c") (simp_all add: leadingInt_nondigit)
  note lc = digit_of_less[OF c]
  have abc: "(digit_of a * 10 + digit_of b) * 10 + digit_of c < 1000" using la lb lc by simp
  have 3: "leadingInt ((digit_of a * 10 + digit_of b) * 10 + digit_of c) [d] = Some (q, [])"
    using 2 c ab by (simp add: leadingInt_digit)
  have d: "is_digit_char d"
    using 3 by (cases "is_digit_char d") (simp_all add: leadingInt_nondigit)
  have "q = ((digit_of a * 10 + digit_of b) * 10 + digit_of c) * 10 + digit_of d"
    using 3 d abc by (simp add: leadingInt_digit)
  then have "q = digit_of a * 1000 + digit_of b * 100 + digit_of c * 10 + digit_of d"
    by simp
  with a b c d show ?thesis by simp
qed

lemma length_ge_4: "4 \<le> length v \<Longrightarrow> \<exists>a b c d r. v = a # b # c # d # r"
  by (cases v; simp; rename_tac v1; case_tac v1; simp; rename_tac v2; case_tac v2; simp;
      rename_tac v3; case_tac v3; simp)

lemma atoi_digit_first:
  assumes "is_digit_char a"
  shows "atoi (a # s) = (case leadingInt 0 (a # s) of None \<Rightarrow> None
           | Some (q, rem) \<Rightarrow> if rem \<noteq> [] then None else Some (int q))"
proof -
  have "a \<noteq> CHR ''-''" "a \<noteq> CHR ''+''"
    using assms by (auto simp: is_digit_char_def)
  then show ?thesis by (simp add: atoi_def split: option.splits)
qed

lemma year_chunk:
  assumes "\<not> (length v < 4 \<or> \<not> isDigit v 0)" and "atoi (take 4 v) = Some y"
  shows "\<exists>a b c d r. v = a # b # c # d # r \<and> is_digit_char a \<and> is_digit_char b \<and>
           is_digit_char c \<and> is_digit_char d \<and>
           y = int (digit_of a * 1000 + digit_of b * 100 + digit_of c * 10 + digit_of d)"
proof -
  from assms(1) have "4 \<le> length v" by simp
  from length_ge_4[OF this] obtain a b c d r where v: "v = a # b # c # d # r" by blast
  from assms(1) v have a: "is_digit_char a"
    by (simp add: isDigit_def is_digit_char_def)
  from assms(2) v have "atoi [a, b, c, d] = Some y" by simp
  then obtain q where q: "leadingInt 0 [a, b, c, d] = Some (q, [])" "y = int q"
    by (simp add: atoi_digit_first[OF a] split: option.splits prod.splits if_splits)
  note leadingInt_4[OF q(1)]
  with v q(2) show ?thesis by simp
qed

lemma two_digits:
  assumes "a < 10" "b < (10::nat)"
  shows "(a * 10 + b) div 10 = a" "(a * 10 + b) mod 10 = b" "a * 10 + b < 100"
  using assms by simp_all

lemma appendInt_2:
  assumes "a < 10" "b < 10"
  shows "appendInt p (a * 10 + b) 2 = p @ [digit_char a, digit_char b]"
  using two_digits[OF assms] by (simp add: appendInt_def digit_char_def)

lemma appendInt_4:
  assumes "a < 10" "b < 10" "c < 10" "d < 10"
  shows "appendInt p (a * 1000 + b * 100 + c * 10 + d) 4 =
           p @ [digit_char a, digit_char b, digit_char c, digit_char d]"
proof -
  let ?u = "a * 1000 + b * 100 + c * 10 + d"
  note ab = two_digits[OF assms(1,2)] and cd = two_digits[OF assms(3,4)]
  have split: "?u = (a * 10 + b) * 100 + (c * 10 + d)" by simp
  have u: "?u < 10000" using ab(3) cd(3) unfolding split by simp
  have "((a * 10 + b) * 100 + (c * 10 + d)) div 100 = (a * 10 + b) + (c * 10 + d) div 100"
    by (rule div_mult_self3) simp
  then have 1: "?u div 100 = a * 10 + b"
    unfolding split using cd(3) by (simp only: div_less add_0_right)
  have "((a * 10 + b) * 100 + (c * 10 + d)) mod 100 = (c * 10 + d) mod 100"
    by (rule mod_mult_self3)
  then have 2: "?u mod 100 = c * 10 + d"
    unfolding split using cd(3) by (simp only: mod_less)
  have "appendInt p ?u 4 =
      p @ [digit_char (?u div 100 div 10), digit_char (?u div 100),
           digit_char (?u mod 100 div 10), digit_char (?u mod 100)]"
    using u by (simp add: appendInt_def)
  also have "\<dots> = p @ [digit_char a, digit_char b, digit_char c, digit_char d]"
    unfolding 1 2 using ab cd by (simp add: digit_char_def)
  finally show ?thesis .
qed

lemma time_Format_Parse:
  assumes "time_Parse v = Some t"
  shows "time_Format t = v"
proof -
  from assms obtain y v1 m v2 v3 dd where
    pre: "\<not> (length v < 4 \<or> \<not> isDigit v 0)" and y: "atoi (take 4 v) = Some y" and
    v1: "skip (drop 4 v) ''-'' = Some v1" and m: "getnum v1 True = Some (m, v2)" and
    v3: "skip v2 ''-'' = Some v3" and dd: "getnum v3 True = Some (dd, [])" and
    t: "t = \<lparr>year = nat y, month = m, day = dd\<rparr>"
    unfolding time_Parse_def
    by (auto split: if_splits option.splits prod.splits)
  from year_chunk[OF pre y] obtain a b c d r where
    v: "v = a # b # c # d # r" and dig: "is_digit_char a" "is_digit_char b" "is_digit_char c"
      "is_digit_char d" and
    yv: "y = int (digit_of a * 1000 + digit_of b * 100 + digit_of c * 10 + digit_of d)"
    by blast
  from v1 v have r: "r = CHR ''-'' # v1" by (simp add: skip_dash)
  from getnum_fixed[OF m] obtain m1 m2 where
    vm: "v1 = m1 # m2 # v2" and mdig: "is_digit_char m1" "is_digit_char m2" and
    mv: "m = digit_of m1 * 10 + digit_of m2" by blast
  from v3 have v2: "v2 = CHR ''-'' # v3" by (simp add: skip_dash)
  from getnum_fixed[OF dd] obtain d1 d2 where
    vd: "v3 = [d1, d2]" and ddig: "is_digit_char d1" "is_digit_char d2" and
    dv: "dd = digit_of d1 * 10 + digit_of d2" by blast
  have yn: "nat y = digit_of a * 1000 + digit_of b * 100 + digit_of c * 10 + digit_of d"
    unfolding yv by (rule nat_int)
  have "time_Format t = [a, b, c, d] @ ''-'' @ [m1, m2] @ ''-'' @ [d1, d2]"
    unfolding time_Format_def t
    using dig mdig ddig
    by (simp add: yn mv dv appendInt_4 appendInt_2 digit_of_less digit_char_digit_of)
  then show ?thesis by (simp add: v r vm v2 vd)
qed

section \<open>A valid date is no number and reads back with a time of day\<close>

lemma time_Parse_shape:
  assumes "time_Parse v = Some t"
  shows "\<exists>a b c d m1 m2 d1 d2.
           v = [a, b, c, d, CHR ''-'', m1, m2, CHR ''-'', d1, d2] \<and>
           is_digit_char a \<and> is_digit_char b \<and> is_digit_char c \<and> is_digit_char d \<and>
           is_digit_char m1 \<and> is_digit_char m2 \<and> is_digit_char d1 \<and> is_digit_char d2"
proof -
  from assms obtain y v1 m v2 v3 dd where
    pre: "\<not> (length v < 4 \<or> \<not> isDigit v 0)" and y: "atoi (take 4 v) = Some y" and
    v1: "skip (drop 4 v) ''-'' = Some v1" and m: "getnum v1 True = Some (m, v2)" and
    v3: "skip v2 ''-'' = Some v3" and dd: "getnum v3 True = Some (dd, [])"
    unfolding time_Parse_def
    by (auto split: if_splits option.splits prod.splits)
  from year_chunk[OF pre y] obtain a b c d r where
    v: "v = a # b # c # d # r" and dig: "is_digit_char a" "is_digit_char b" "is_digit_char c"
      "is_digit_char d"
    by blast
  from v1 v have r: "r = CHR ''-'' # v1" by (simp add: skip_dash)
  from getnum_fixed[OF m] obtain m1 m2 where
    vm: "v1 = m1 # m2 # v2" and mdig: "is_digit_char m1" "is_digit_char m2" by blast
  from v3 have v2: "v2 = CHR ''-'' # v3" by (simp add: skip_dash)
  from getnum_fixed[OF dd] obtain d1 d2 where
    vd: "v3 = [d1, d2]" and ddig: "is_digit_char d1" "is_digit_char d2" by blast
  from dig mdig ddig show ?thesis by (simp add: v r vm v2 vd)
qed

lemma digit_not_blank_or_sign:
  assumes "is_digit_char c"
  shows "\<not> sqlite3Isspace c" and "c \<noteq> CHR ''-''" and "c \<noteq> CHR ''+''" and "c \<noteq> CHR ''Z''"
  using assms by (auto simp: is_digit_char_def sqlite3Isspace_def)

lemma sqlite3AtoF_date:
  assumes "time_Parse v = Some t"
  shows "sqlite3AtoF v = None"
proof -
  from time_Parse_shape[OF assms] obtain a b c d m1 m2 d1 d2 where
    v: "v = [a, b, c, d, CHR ''-'', m1, m2, CHR ''-'', d1, d2]" and
    dig: "is_digit_char a" "is_digit_char b" "is_digit_char c" "is_digit_char d"
    by blast
  have dash: "\<not> is_digit_char CHR ''-''" "\<not> sqlite3Isspace CHR ''-''"
    by (simp_all add: is_digit_char_def sqlite3Isspace_def)
  show ?thesis
    unfolding v using dig dash digit_not_blank_or_sign[OF dig(1)]
    by (simp add: sqlite3AtoF_def signed_def sqlite3Isdigit_def Let_def)
qed

lemma date_affinity_date:
  "time_Parse v = Some t \<Longrightarrow> date_affinity eng v = v"
  by (simp add: date_affinity_def sqlite3AtoF_date)

lemma TrimSuffix_Z_date:
  assumes "time_Parse v = Some t"
  shows "TrimSuffix_Z v = v"
proof -
  from time_Parse_shape[OF assms] obtain a b c d m1 m2 d1 d2 where
    v: "v = [a, b, c, d, CHR ''-'', m1, m2, CHR ''-'', d1, d2]" and d2: "is_digit_char d2"
    by blast
  show ?thesis
    unfolding v using digit_not_blank_or_sign(4)[OF d2] by (simp add: TrimSuffix_Z_def)
qed

lemma date_Scan_date:
  assumes "time_Parse v = Some t"
  shows "date_Scan eng v = v @ ''T00:00:00Z''"
  using assms
  by (simp add: date_Scan_def sqlite3AtoF_date TrimSuffix_Z_date time_Format_Parse)

lemma date_Scan_longer:
  assumes "time_Parse v = Some t"
  shows "date_Scan eng v \<noteq> v"
  using date_Scan_date[OF assms, of eng] by simp

section \<open>The driver and the store's statements\<close>

lemma driver_call_rows [simp]: "rows (snd (driver_call d)) = rows d"
  by (simp add: driver_call_def split: list.splits)

lemma driver_call_seq [simp]: "seq (snd (driver_call d)) = seq d"
  by (simp add: driver_call_def split: list.splits)

lemma driver_call_healthy:
  "healthy d \<Longrightarrow> \<not> fst (driver_call d) \<and> healthy (snd (driver_call d))"
  by (auto simp: driver_call_def healthy_def split: list.splits)

lemma wf_db_driver_call [simp]: "wf_db (snd (driver_call d)) = wf_db d"
  by (simp add: wf_db_def)

lemma stored_driver_call [simp]: "stored (snd (driver_call d)) = stored d"
  by (simp add: stored_def fun_eq_iff)

lemma where_id_Some: "key_of s = Some i \<Longrightarrow> where_id key_of s = (\<lambda>r. ID r = i)"
  by (auto simp: where_id_def fun_eq_iff)

lemma where_id_None: "key_of s = None \<Longrightarrow> where_id key_of s = (\<lambda>r. False)"
  by (auto simp: where_id_def fun_eq_iff)

lemma case_filter_find:
  "(case filter P rs of [] \<Rightarrow> a | r # _ \<Rightarrow> f r) = (case find P rs of None \<Rightarrow> a | Some r \<Rightarrow> f r)"
  by (induction rs) auto

lemma filter_empty_find: "filter P rs = [] \<longleftrightarrow> find P rs = None"
  by (induction rs) auto

lemma find_ID_map:
  assumes "\<And>r. ID (f r) = ID r"
  shows "find (\<lambda>r. ID r = j) (map f rs) = map_option f (find (\<lambda>r. ID r = j) rs)"
  using assms by (induction rs) auto

lemma find_ID_filter:
  "find (\<lambda>r. ID r = j) (filter (\<lambda>r. ID r \<noteq> i) rs) =
     (if j = i then None else find (\<lambda>r. ID r = j) rs)"
  by (induction rs) auto

lemma find_ID_append:
  "find P (rs @ [r]) = (case find P rs of None \<Rightarrow> (if P r then Some r else None) | Some x \<Rightarrow> Some x)"
  by (induction rs) auto

lemma find_None_bounded:
  "list_all (\<lambda>r. ID r \<le> n) rs \<Longrightarrow> n < j \<Longrightarrow> find (\<lambda>r. ID r = j) rs = None"
  by (induction rs) auto

lemma stored_in_rows: "stored d i = Some r \<Longrightarrow> r \<in> set (rows d) \<and> ID r = i"
  unfolding stored_def by (induction "rows d" arbitrary: d) (auto simp: find_Some_iff)

lemma stored_None_iff: "stored d i = None \<longleftrightarrow> i \<notin> ID ` set (rows d)"
  unfolding stored_def by (auto simp: find_None_iff)

subsection \<open>What each handler does, by cases\<close>

lemma retrieveTask_eq:
  "retrieveTask key_of eng s d =
     (if fst (driver_call d) then ((StatusNotFound, H_error ''Task not found''), snd (driver_call d))
      else case key_of s of
             None \<Rightarrow> ((StatusNotFound, H_error ''Task not found''), snd (driver_call d))
           | Some i \<Rightarrow>
               (case stored d i of
                  None \<Rightarrow> ((StatusNotFound, H_error ''Task not found''), snd (driver_call d))
                | Some r \<Rightarrow> ((StatusOK, JSON_Task (Scan_row eng r)), snd (driver_call d))))"
  by (cases "key_of s")
     (auto simp: retrieveTask_def db_QueryRow_Scan_def case_prod_beta stored_def
        where_id_Some where_id_None filter_empty_find
        split: list.splits option.splits dest: find_Some_iff[THEN iffD1]
        simp: case_filter_find)


lemma driver_call_rows_update:
  "driver_call (d\<lparr>rows := x\<rparr>) = (fst (driver_call d), (snd (driver_call d))\<lparr>rows := x\<rparr>)"
  by (simp add: driver_call_def split: list.splits)

lemma Task_all_fields:
  "\<lparr>ID = i, Title = Title p, Description = Description p, DueDate = DueDate p,
     Status = Status p\<rparr> = p\<lparr>ID := i\<rparr>"
  by (cases p) simp

lemma Task_overwrite:
  "ID (r::Task) = i \<Longrightarrow>
   r\<lparr>Title := Title (p::Task), Description := Description p, DueDate := x, Status := Status p\<rparr>
     = p\<lparr>ID := i, DueDate := x\<rparr>"
  by (cases p, cases r) simp

lemma createTask_Some:
  assumes "time_Parse (DueDate p) = Some t"
  shows "createTask eng (Some p) d =
     (if fst (driver_call d) \<or> 9223372036854775807 \<le> seq d
      then ((StatusInternalServerError, H_error ''Failed to create task''), snd (driver_call d))
      else ((StatusCreated, JSON_Task (p\<lparr>ID := seq d + 1\<rparr>)),
            (snd (driver_call d))\<lparr>rows := rows d @ [p\<lparr>ID := seq d + 1\<rparr>], seq := seq d + 1\<rparr>))"
proof -
  have f: "time_Format t = DueDate p"
    using assms by (rule time_Format_Parse)
  have a: "date_affinity eng (DueDate p) = DueDate p"
    using assms by (simp add: date_affinity_date)
  have t: "\<lparr>ID = seq d + 1, Title = Title p, Description = Description p, DueDate = DueDate p,
             Status = Status p\<rparr> = p\<lparr>ID := seq d + 1\<rparr>"
    by (rule Task_all_fields)
  show ?thesis
    using assms by (simp add: createTask_def db_Exec_insert_def case_prod_beta f a t)
qed

lemma createTask_invalid:
  "time_Parse (DueDate p) = None \<Longrightarrow>
   createTask eng (Some p) d = ((StatusBadRequest, H_error ''Invalid due_date format''), d)"
  by (simp add: createTask_def)

lemma createTask_None:
  "createTask eng None d = ((StatusBadRequest, H_error ''Invalid request payload''), d)"
  by (simp add: createTask_def)

lemma deleteTask_eq:
  "deleteTask key_of s d =
     (if fst (driver_call d)
      then ((StatusInternalServerError, H_error ''Failed to delete task''), snd (driver_call d))
      else case key_of s of
             None \<Rightarrow> ((StatusNotFound, H_error ''Task not found''), snd (driver_call d))
           | Some i \<Rightarrow>
               if stored d i = None
               then ((StatusNotFound, H_error ''Task not found''), snd (driver_call d))
               else ((StatusOK, H_message ''Task deleted successfully''),
                     (snd (driver_call d))\<lparr>rows := filter (\<lambda>r. ID r \<noteq> i) (rows d)\<rparr>))"
proof (cases "key_of s")
  case None
  then show ?thesis
    by (simp add: deleteTask_def db_Exec_delete_def case_prod_beta where_id_None)
next
  case (Some i)
  have "stored d i = None \<Longrightarrow> filter (\<lambda>r. ID r \<noteq> i) (rows d) = rows d"
    by (auto simp: stored_None_iff filter_id_conv)
  then have "stored d i = None \<Longrightarrow>
      (snd (driver_call d))\<lparr>rows := filter (\<lambda>r. ID r \<noteq> i) (rows d)\<rparr> = snd (driver_call d)"
    by simp
  then show ?thesis
    using Some
    by (simp add: deleteTask_def db_Exec_delete_def case_prod_beta where_id_Some
        filter_empty_find stored_def)
qed

lemma updateTask_None:
  "updateTask key_of eng s None d = ((StatusBadRequest, H_error ''Invalid request payload''), d)"
  by (simp add: updateTask_def)

lemma updateTask_no_row:
  assumes "filter (where_id key_of s) (rows d) = []"
  shows "updateTask key_of eng s (Some p) d =
           ((StatusNotFound, H_error ''Task not found''), snd (driver_call d))"
  using assms by (simp add: updateTask_def db_QueryRow_Scan_def case_prod_beta)

lemma updateTask_read_fails:
  assumes "fst (driver_call d)"
  shows "updateTask key_of eng s (Some p) d =
           ((StatusNotFound, H_error ''Task not found''), snd (driver_call d))"
  using assms by (simp add: updateTask_def db_QueryRow_Scan_def case_prod_beta)

lemma updateTask_row:
  assumes "key_of s = Some i" and "stored d i = Some r" and "\<not> fst (driver_call d)"
  shows "updateTask key_of eng s (Some p) d =
     (let d1 = snd (driver_call d); d2 = snd (driver_call d1); d3 = snd (driver_call d2);
          w = p\<lparr>ID := i, DueDate := date_affinity eng (DueDate p)\<rparr> in
      if fst (driver_call d1)
      then ((StatusInternalServerError, H_error ''Failed to update task''), d2)
      else if fst (driver_call d2)
      then ((StatusInternalServerError, H_error ''Failed to retrieve updated task details''),
            d3\<lparr>rows := map (\<lambda>r. if ID r = i then w else r) (rows d)\<rparr>)
      else ((StatusOK, JSON_Task (Scan_row eng w)),
            d3\<lparr>rows := map (\<lambda>r. if ID r = i then w else r) (rows d)\<rparr>))"
proof -
  let ?w = "p\<lparr>ID := i, DueDate := date_affinity eng (DueDate p)\<rparr>"
  let ?f = "\<lambda>r. if ID r = i
       then r\<lparr>Title := Title p, Description := Description p,
              DueDate := date_affinity eng (DueDate p), Status := Status p\<rparr> else r"
  let ?g = "\<lambda>r. if ID r = i then ?w else r"
  have fg: "?f = ?g" by (auto simp: fun_eq_iff Task_overwrite)
  have 1: "find (\<lambda>r. ID r = i) (rows d) = Some r" using assms(2) by (simp add: stored_def)
  have "find (\<lambda>r. ID r = i) (map ?g (rows d)) = map_option ?g (find (\<lambda>r. ID r = i) (rows d))"
    by (rule find_ID_map) simp
  then have 2: "find (\<lambda>r. ID r = i) (map ?g (rows d)) = Some ?w"
    using 1 stored_in_rows[OF assms(2)] by simp
  show ?thesis
    using assms(1,3) 1 2
    by (simp add: updateTask_def db_QueryRow_Scan_def db_Exec_update_def case_prod_beta
        where_id_Some case_filter_find fg driver_call_rows_update Let_def)
qed

lemma scan_loop_rows [simp]:
  "rows (snd (scan_loop eng cursor tasks d)) = rows d \<and> seq (snd (scan_loop eng cursor tasks d)) = seq d"
  by (induction cursor arbitrary: tasks d) (simp_all add: case_prod_beta)


lemma listAllTasks_rows [simp]:
  "rows (snd (listAllTasks eng d)) = rows d \<and> seq (snd (listAllTasks eng d)) = seq d"
  by (simp add: listAllTasks_def db_Query_def case_prod_beta split: sum.splits)



subsection \<open>The invariant and the values last written, step by step\<close>

lemma wf_db_ID_bound: "wf_db d \<Longrightarrow> r \<in> set (rows d) \<Longrightarrow> 0 < ID r \<and> ID r \<le> seq d"
  by (auto simp: wf_db_def list_all_iff)

lemma wf_db_distinct: "wf_db d \<Longrightarrow> distinct (map ID (rows d))"
  by (simp add: wf_db_def strict_sorted_iff)

lemma stored_beyond_seq: "wf_db d \<Longrightarrow> seq d < j \<Longrightarrow> stored d j = None"
  by (auto simp: stored_None_iff dest: wf_db_ID_bound)

lemma wf_db_insert:
  assumes "wf_db d"
  shows "wf_db (x\<lparr>rows := rows d @ [p\<lparr>ID := seq d + 1\<rparr>], seq := seq d + 1\<rparr>)"
  using assms
  by (auto simp: wf_db_def sorted_wrt_append list_all_iff)

lemma map_ID_overwrite:
  "ID (w::Task) = i \<Longrightarrow> map ID (map (\<lambda>r. if ID r = i then w else r) rs) = map ID rs"
  by (induction rs) auto

lemma wf_db_overwrite:
  assumes "wf_db d" and "seq x = seq d" and "ID (w::Task) = i"
  shows "wf_db (x\<lparr>rows := map (\<lambda>r. if ID r = i then w else r) (rows d)\<rparr>)"
proof -
  have "list_all (\<lambda>r. 0 < ID r \<and> ID r \<le> seq d)
          (map (\<lambda>r. if ID r = i then w else r) (rows d))"
    using assms(1,3) by (auto simp: wf_db_def list_all_iff)
  with assms show ?thesis
    by (simp add: wf_db_def map_ID_overwrite del: map_map)
qed

lemma wf_db_remove:
  assumes "wf_db d" and "seq x = seq d"
  shows "wf_db (x\<lparr>rows := filter (\<lambda>r. ID r \<noteq> i) (rows d)\<rparr>)"
proof -
  have "sorted_wrt (<) (filter (\<lambda>k. k \<noteq> i) (map ID (rows d)))"
    using assms(1) by (simp add: wf_db_def sorted_wrt_filter)
  moreover have "filter (\<lambda>k. k \<noteq> i) (map ID (rows d)) = map ID (filter (\<lambda>r. ID r \<noteq> i) (rows d))"
    by (simp add: filter_map comp_def)
  ultimately show ?thesis
    using assms by (auto simp: wf_db_def list_all_iff)
qed

lemma stored_insert:
  assumes "wf_db d"
  shows "stored (x\<lparr>rows := rows d @ [p\<lparr>ID := seq d + 1\<rparr>], seq := seq d + 1\<rparr>) =
           (stored d)(seq d + 1 \<mapsto> p\<lparr>ID := seq d + 1\<rparr>)"
proof
  fix j
  have "stored d (seq d + 1) = None"
    using assms by (simp add: stored_beyond_seq)
  then show "stored (x\<lparr>rows := rows d @ [p\<lparr>ID := seq d + 1\<rparr>], seq := seq d + 1\<rparr>) j =
           ((stored d)(seq d + 1 \<mapsto> p\<lparr>ID := seq d + 1\<rparr>)) j"
    by (auto simp: stored_def find_ID_append split: option.splits)
qed

lemma stored_overwrite:
  assumes "stored d i = Some r" and "ID (w::Task) = i"
  shows "stored (x\<lparr>rows := map (\<lambda>r. if ID r = i then w else r) (rows d)\<rparr>) =
           (stored d)(i \<mapsto> w)"
proof
  fix j
  let ?g = "\<lambda>r. if ID r = i then w else r"
  have "find (\<lambda>r. ID r = j) (map ?g (rows d)) = map_option ?g (find (\<lambda>r. ID r = j) (rows d))"
    by (rule find_ID_map) (simp add: assms(2))
  moreover have "j \<noteq> i \<Longrightarrow> map_option ?g (stored d j) = stored d j"
    by (cases "stored d j") (auto dest: stored_in_rows)
  ultimately show "stored (x\<lparr>rows := map ?g (rows d)\<rparr>) j = ((stored d)(i \<mapsto> w)) j"
    using assms(1) stored_in_rows[OF assms(1)] by (auto simp: stored_def)
qed

lemma stored_remove:
  "stored (x\<lparr>rows := filter (\<lambda>r. ID r \<noteq> i) (rows d)\<rparr>) = (stored d)(i := None)"
  by (auto simp: stored_def fun_eq_iff find_ID_filter)

lemma route_create:
  assumes "wf_db d" and "createTask eng body d = (resp, d')"
  shows "wf_db d' \<and> stored d' = written key_of eng (POST_MANAGEMENT body, resp) (stored d)"
proof (cases body)
  case None
  with assms show ?thesis by (auto simp: createTask_None written_def)
next
  case (Some p)
  show ?thesis
  proof (cases "time_Parse (DueDate p)")
    case None
    with Some assms show ?thesis by (auto simp: createTask_invalid written_def)
  next
    case (Some t)
    with \<open>body = Some p\<close> assms show ?thesis
      by (auto simp: createTask_Some written_def wf_db_insert stored_insert split: if_splits)
  qed
qed

lemma route_retrieve:
  assumes "wf_db d" and "retrieveTask key_of eng s d = (resp, d')"
  shows "wf_db d' \<and> stored d' = written key_of eng (GET_MANAGEMENT_id s, resp) (stored d)"
  using assms
  by (auto simp: retrieveTask_eq written_def split: if_splits option.splits)

lemma route_update:
  assumes "wf_db d" and "updateTask key_of eng s body d = (resp, d')"
  shows "wf_db d' \<and> stored d' = written key_of eng (PUT_MANAGEMENT_id s body, resp) (stored d)"
proof (cases body)
  case None
  with assms show ?thesis by (auto simp: updateTask_None written_def)
next
  case (Some p)
  note body = this
  show ?thesis
  proof (cases "fst (driver_call d)")
    case True
    with body assms show ?thesis by (auto simp: updateTask_read_fails written_def)
  next
    case False
    note ok = this
    show ?thesis
    proof (cases "key_of s")
      case None
      then have "filter (where_id key_of s) (rows d) = []" by (simp add: where_id_None)
      with body assms show ?thesis by (auto simp: updateTask_no_row written_def)
    next
      case (Some i)
      note key = this
      show ?thesis
      proof (cases "stored d i")
        case None
        then have "filter (where_id key_of s) (rows d) = []"
          using key by (simp add: where_id_Some filter_empty_find stored_def)
        with body assms show ?thesis by (auto simp: updateTask_no_row written_def)
      next
        case (Some r)
        note eq = updateTask_row[where key_of = key_of and s = s and p = p, OF key Some ok]
        from assms(2) have "updateTask key_of eng s (Some p) d = (resp, d')"
          by (simp add: body)
        then show ?thesis
          unfolding eq body using assms(1) key
          by (auto simp: Let_def written_def wf_db_overwrite stored_overwrite[OF Some]
              split: if_splits)
      qed
    qed
  qed
qed

lemma route_delete:
  assumes "wf_db d" and "deleteTask key_of s d = (resp, d')"
  shows "wf_db d' \<and> stored d' = written key_of eng (DELETE_MANAGEMENT_id s, resp) (stored d)"
  using assms
  by (auto simp: deleteTask_eq written_def wf_db_remove stored_remove
      split: if_splits option.splits)

lemma route_list:
  assumes "wf_db d" and "listAllTasks eng d = (resp, d')"
  shows "wf_db d' \<and> stored d' = written key_of eng (GET_MANAGEMENT, resp) (stored d)"
proof -
  have "rows d' = rows d" "seq d' = seq d"
    using listAllTasks_rows[of eng d] assms(2) by simp_all
  then show ?thesis
    using assms(1) by (simp add: wf_db_def stored_def fun_eq_iff written_def)
qed

lemma route_step:
  assumes "wf_db d" and "route key_of eng q d = (resp, d')"
  shows "wf_db d' \<and> stored d' = written key_of eng (q, resp) (stored d)"
proof (cases q)
  case GET_root
  with assms show ?thesis by (auto simp: written_def)
next
  case (POST_MANAGEMENT body)
  with assms route_create show ?thesis by simp
next
  case (GET_MANAGEMENT_id s)
  with assms route_retrieve show ?thesis by simp
next
  case (PUT_MANAGEMENT_id s body)
  with assms route_update show ?thesis by simp
next
  case (DELETE_MANAGEMENT_id s)
  with assms route_delete show ?thesis by simp
next
  case GET_MANAGEMENT
  with assms route_list show ?thesis by simp
qed

lemma serve_last_written:
  assumes "wf_db d" and "serve key_of eng qs d = (log, d')"
  shows "wf_db d' \<and> stored d' = last_written key_of eng log (stored d)"
  using assms
proof (induction qs arbitrary: d log d')
  case Nil
  then show ?case by (simp add: last_written_def)
next
  case (Cons q qs)
  obtain resp d1 where r: "route key_of eng q d = (resp, d1)" by (cases "route key_of eng q d")
  obtain log1 d2 where s: "serve key_of eng qs d1 = (log1, d2)" by (cases "serve key_of eng qs d1")
  from Cons.prems(2) r s have log: "log = (q, resp) # log1" and d': "d' = d2" by simp_all
  note step = route_step[OF Cons.prems(1) r]
  from Cons.IH[OF step[THEN conjunct1] s] step[THEN conjunct2]
  show ?case by (simp add: log d' last_written_def)
qed

section \<open>Facts used by several claims\<close>

lemmas time_eval = time_Parse_def atoi_def getnum_def isDigit_def digit_of_def daysIn_def
  isLeap_def leadingInt.simps(2)

lemmas atof_eval = sqlite3AtoF_def sqlite3Isspace_def sqlite3Isdigit_def is_digit_char_def
  signed_def Let_def

lemma sqlite_key_1: "sqlite_key other ''1'' = Some 1"
  by (simp add: sqlite_key_def digits_value_def digit_of_def atof_eval)

lemma sqlite_key_2: "sqlite_key other ''2'' = Some 2"
  by (simp add: sqlite_key_def digits_value_def digit_of_def atof_eval)


lemma sqlite_key_no_number: "sqlite3AtoF s = None \<Longrightarrow> sqlite_key other s = None"
  by (simp add: sqlite_key_def)

lemma sqlite3AtoF_abc: "sqlite3AtoF ''abc'' = None"
  by (simp add: atof_eval)

lemma example_key_1: "example_key ''1'' = Some 1"
  by (simp add: example_key_def sqlite_key_1)

lemma example_key_2: "example_key ''2'' = Some 2"
  by (simp add: example_key_def sqlite_key_2)

lemma example_key_abc: "example_key ''abc'' = None"
  by (simp add: example_key_def sqlite_key_no_number sqlite3AtoF_abc)

lemma time_Parse_milk: "time_Parse (DueDate milk) = Some \<lparr>year = 2025, month = 3, day = 10\<rparr>"
  by (simp add: milk_def time_eval)

lemma date_Scan_milk: "date_Scan eng ''2025-03-10'' = ''2025-03-10T00:00:00Z''"
  using date_Scan_date[of "''2025-03-10''" _ eng] time_Parse_milk by (simp add: milk_def)

lemma date_Scan_tomorrow: "date_Scan eng ''tomorrow'' = ''0001-01-01T00:00:00Z''"
  by (simp add: date_Scan_def TrimSuffix_Z_def atof_eval time_eval)

lemma date_affinity_tomorrow: "date_affinity eng ''tomorrow'' = ''tomorrow''"
  by (simp add: date_affinity_def atof_eval)

lemma wf_db_fresh: "wf_db (fresh_db fs)"
  by (simp add: wf_db_def fresh_db_def)

lemma wf_db_one_task: "wf_db one_task_db"
  by (simp add: wf_db_def one_task_db_def)

lemma healthy_one_task: "healthy one_task_db"
  by (simp add: healthy_def one_task_db_def)

lemma healthy_rows_update [simp]: "healthy (x\<lparr>rows := rs\<rparr>) = healthy x"
  by (simp add: healthy_def)

lemma healthy_seq_update [simp]: "healthy (x\<lparr>seq := n\<rparr>) = healthy x"
  by (simp add: healthy_def)

lemma filter_where_id_stored:
  "key_of s = Some i \<Longrightarrow> filter (where_id key_of s) (rows d) = [] \<longleftrightarrow> stored d i = None"
  by (simp add: where_id_Some filter_empty_find stored_def)

lemma createTask_keeps_due_dates:
  assumes "due_dates_parse d"
  shows "due_dates_parse (snd (createTask eng body d))"
proof (cases body)
  case None
  with assms show ?thesis by (simp add: createTask_None)
next
  case (Some p)
  show ?thesis
  proof (cases "time_Parse (DueDate p)")
    case None
    with Some assms show ?thesis by (simp add: createTask_invalid)
  next
    case (Some t)
    with \<open>body = Some p\<close> assms show ?thesis
      by (simp add: createTask_Some due_dates_parse_def)
  qed
qed


lemma Scan_row_fields [simp]:
  "ID (Scan_row eng r) = ID r" "Title (Scan_row eng r) = Title r"
  "Description (Scan_row eng r) = Description r" "Status (Scan_row eng r) = Status r"
  "DueDate (Scan_row eng r) = date_Scan eng (DueDate r)"
  by (simp_all add: Scan_row_def)

lemma updateTask_then_retrieve:
  assumes "key_of taskID = Some i" and "stored d i = Some r" and "healthy d"
  shows "\<exists>d'. updateTask key_of eng taskID (Some p) d =
                ((StatusOK,
                  JSON_Task (Scan_row eng (p\<lparr>ID := i, DueDate := date_affinity eng (DueDate p)\<rparr>))),
                 d') \<and>
           ID r = i \<and>
           stored d' i = Some (p\<lparr>ID := i, DueDate := date_affinity eng (DueDate p)\<rparr>) \<and>
           (\<forall>j. j \<noteq> i \<longrightarrow> stored d' j = stored d j) \<and>
           map ID (rows d') = map ID (rows d) \<and> seq d' = seq d \<and>
           retrieveTask key_of eng taskID d' =
             (fst (updateTask key_of eng taskID (Some p) d), snd (driver_call d'))"
proof -
  let ?w = "p\<lparr>ID := i, DueDate := date_affinity eng (DueDate p)\<rparr>"
  let ?d1 = "snd (driver_call d)"
  let ?d2 = "snd (driver_call ?d1)"
  let ?d3 = "snd (driver_call ?d2)"
  let ?d' = "?d3\<lparr>rows := map (\<lambda>r. if ID r = i then ?w else r) (rows d)\<rparr>"
  note h0 = driver_call_healthy[OF assms(3)]
  note h1 = driver_call_healthy[OF h0[THEN conjunct2]]
  note h2 = driver_call_healthy[OF h1[THEN conjunct2]]
  have u: "updateTask key_of eng taskID (Some p) d = ((StatusOK, JSON_Task (Scan_row eng ?w)), ?d')"
    using updateTask_row[where key_of = key_of and s = taskID and p = p and eng = eng,
        OF assms(1,2) h0[THEN conjunct1]] h1 h2
    by (simp add: Let_def)
  have st: "stored ?d' = (stored d)(i \<mapsto> ?w)"
    by (rule stored_overwrite[OF assms(2)]) simp
  have h': "healthy ?d'" using h2 by simp
  have r: "retrieveTask key_of eng taskID ?d' =
      ((StatusOK, JSON_Task (Scan_row eng ?w)), snd (driver_call ?d'))"
    using driver_call_healthy[OF h'] assms(1) by (simp add: retrieveTask_eq st)
  have ids: "map ID (rows ?d') = map ID (rows d)"
    by (simp add: map_ID_overwrite del: map_map)
  from u st r ids stored_in_rows[OF assms(2)] show ?thesis
    by simp
qed

lemma retrieve_last_written:
  assumes "wf_db d0" and "serve key_of eng qs d0 = (log, d)" and "key_of taskID = Some i"
    and "\<not> fst (driver_call d)"
  shows "fst (retrieveTask key_of eng taskID d) =
           (case last_written key_of eng log (stored d0) i of
              None \<Rightarrow> (StatusNotFound, H_error ''Task not found'')
            | Some t \<Rightarrow> (StatusOK, JSON_Task (Scan_row eng t)))"
  using assms(3,4) serve_last_written[OF assms(1,2), THEN conjunct2]
  by (simp add: retrieveTask_eq split: option.splits)

lemma map_Scan_row_fields [simp]:
  "map ID (map (Scan_row eng) rs) = map ID rs"
  "map Title (map (Scan_row eng) rs) = map Title rs"
  "map Description (map (Scan_row eng) rs) = map Description rs"
  "map Status (map (Scan_row eng) rs) = map Status rs"
  by (induction rs) simp_all

section \<open>The claims\<close>

text \<open>
  C1 does not hold of the code. \<^verbatim>\<open>createTask\<close> parses the due_date, stores its
  canonical form and rejects a text that does not parse, so it keeps every persisted
  due_date parsable (\<open>createTask_keeps_due_dates\<close>); \<^verbatim>\<open>updateTask\<close> binds the
  payload's due_date into the UPDATE statement as it came. On the store that holds the
  example task under key 1, where every due_date parses, an Update with the due_date
  \<^verbatim>\<open>tomorrow\<close> is answered with status 200; the text is no number, so the column
  keeps it as it is, and afterwards a persisted due_date does not parse. The re-read
  that the answer carries takes the stored text for a time, finds none and returns the
  zero time. A Create with the same payload is refused.
\<close>

theorem C1_update_stores_unparsed_due_date:
  "due_dates_parse one_task_db \<and>
   updateTask (sqlite_key other) eng ''1'' (Some (milk\<lparr>DueDate := ''tomorrow''\<rparr>)) one_task_db =
     ((StatusOK, JSON_Task (milk\<lparr>ID := 1, DueDate := ''0001-01-01T00:00:00Z''\<rparr>)),
      one_task_db\<lparr>rows := [milk\<lparr>ID := 1, DueDate := ''tomorrow''\<rparr>]\<rparr>) \<and>
   time_Parse ''tomorrow'' = None \<and>
   \<not> due_dates_parse (one_task_db\<lparr>rows := [milk\<lparr>ID := 1, DueDate := ''tomorrow''\<rparr>]\<rparr>) \<and>
   createTask eng (Some (milk\<lparr>DueDate := ''tomorrow''\<rparr>)) one_task_db =
     ((StatusBadRequest, H_error ''Invalid due_date format''), one_task_db)"
  by (simp add: due_dates_parse_def time_eval updateTask_def createTask_def db_QueryRow_Scan_def
      db_Exec_update_def driver_call_def where_id_def sqlite_key_1 one_task_db_def milk_def
      Scan_row_def date_Scan_tomorrow date_affinity_tomorrow)

text \<open>
  C2. A Create whose due_date does not parse against the layout YYYY-MM-DD is answered
  with status 400 (InvalidInput) and the error text of the handler, which reads
  \<^verbatim>\<open>Invalid due_date format\<close>; the store is handed back as it was, nothing is
  inserted and the driver is not called.
\<close>

theorem C2_create_rejects_unparsable_due_date:
  assumes "time_Parse (DueDate p) = None"
  shows "createTask eng (Some p) d = ((StatusBadRequest, H_error ''Invalid due_date format''), d)"
  using assms by (rule createTask_invalid)

theorem C2_create_rejects_unparsable_due_date_witness:
  "time_Parse (DueDate (milk\<lparr>DueDate := ''2024-13-40''\<rparr>)) = None \<and>
   createTask example_engine (Some (milk\<lparr>DueDate := ''2024-13-40''\<rparr>)) one_task_db =
     ((StatusBadRequest, H_error ''Invalid due_date format''), one_task_db)"
proof -
  have h: "time_Parse (DueDate (milk\<lparr>DueDate := ''2024-13-40''\<rparr>)) = None"
    by (simp add: time_eval)
  from h C2_create_rejects_unparsable_due_date[where eng = example_engine and d = one_task_db, OF h] show ?thesis by simp
qed

text \<open>
  C3, as stated, fails: an Update whose payload does not decode is answered with status
  400 (InvalidInput) before the store is asked, also when its id matches no row.
\<close>

theorem C3_counterexample:
  "filter (where_id example_key ''2'') (rows one_task_db) = [] \<and>
   updateTask example_key example_engine ''2'' None one_task_db =
     ((StatusBadRequest, H_error ''Invalid request payload''), one_task_db) \<and>
   fst (fst (updateTask example_key example_engine ''2'' None one_task_db)) \<noteq> StatusNotFound"
  by (simp add: updateTask_None where_id_def example_key_2 one_task_db_def milk_def)

text \<open>
  C3, amended. An Update with a decodable payload whose id matches no persisted row is
  answered with status 404 (NotFound); the only call of the driver is the read before
  the write, so the table and the key counter are unchanged and no row is created. With
  a payload that does not decode the answer is status 400 (InvalidInput) and the store is
  not touched at all.
\<close>

theorem C3_update_of_unknown_id:
  assumes "filter (where_id key_of taskID) (rows d) = []"
  shows "updateTask key_of eng taskID (Some p) d =
           ((StatusNotFound, H_error ''Task not found''), snd (driver_call d)) \<and>
         rows (snd (driver_call d)) = rows d \<and> seq (snd (driver_call d)) = seq d \<and>
         updateTask key_of eng taskID None d =
           ((StatusBadRequest, H_error ''Invalid request payload''), d)"
  using assms by (simp add: updateTask_no_row updateTask_None)

theorem C3_update_of_unknown_id_witness:
  "filter (where_id example_key ''2'') (rows one_task_db) = [] \<and>
   updateTask example_key example_engine ''2'' (Some milk) one_task_db =
           ((StatusNotFound, H_error ''Task not found''), snd (driver_call one_task_db)) \<and>
   rows (snd (driver_call one_task_db)) = rows one_task_db \<and>
   seq (snd (driver_call one_task_db)) = seq one_task_db \<and>
   updateTask example_key example_engine ''2'' None one_task_db =
           ((StatusBadRequest, H_error ''Invalid request payload''), one_task_db)"
proof -
  have h: "filter (where_id example_key ''2'') (rows one_task_db) = []"
    by (simp add: where_id_def example_key_2 one_task_db_def milk_def)
  from h C3_update_of_unknown_id[where eng = example_engine and p = milk, OF h] show ?thesis by simp
qed

text \<open>
  C4. A Create with a due_date that parses, on a store that satisfies the invariant and
  carries out the insert, is answered with status 201 and a Task whose title,
  description, due_date and status are those submitted and whose id is new: positive,
  larger than every key handed out before, hence different from the key of every
  persisted row. The row appended to the table is the Task returned, the keys of the
  table stay pairwise distinct, and the id of the payload has no influence.
\<close>

theorem C4_create_returns_input_with_new_id:
  assumes "time_Parse (DueDate p) \<noteq> None" and "wf_db d" and "\<not> fst (driver_call d)"
    and "seq d < 9223372036854775807"
  shows "\<exists>task d'. createTask eng (Some p) d = ((StatusCreated, JSON_Task task), d') \<and>
           Title task = Title p \<and> Description task = Description p \<and>
           DueDate task = DueDate p \<and> Status task = Status p \<and>
           0 < ID task \<and> seq d < ID task \<and> ID task \<notin> ID ` set (rows d) \<and>
           rows d' = rows d @ [task] \<and> distinct (map ID (rows d')) \<and> wf_db d' \<and>
           createTask eng (Some (p\<lparr>ID := j\<rparr>)) d = createTask eng (Some p) d"
proof -
  from assms(1) obtain t where t: "time_Parse (DueDate p) = Some t" by blast
  then have tj: "time_Parse (DueDate (p\<lparr>ID := j\<rparr>)) = Some t" by simp
  let ?task = "p\<lparr>ID := seq d + 1\<rparr>"
  let ?d' = "(snd (driver_call d))\<lparr>rows := rows d @ [?task], seq := seq d + 1\<rparr>"
  have c: "createTask eng (Some p) d = ((StatusCreated, JSON_Task ?task), ?d')"
    using assms(3,4) by (simp add: createTask_Some[OF t])
  have cj: "createTask eng (Some (p\<lparr>ID := j\<rparr>)) d = ((StatusCreated, JSON_Task ?task), ?d')"
    using assms(3,4) by (simp add: createTask_Some[OF tj])
  have wf': "wf_db ?d'" using assms(2) by (rule wf_db_insert)
  have pos: "0 < ID ?task" using assms(2) by (simp add: wf_db_def)
  have new: "ID ?task \<notin> ID ` set (rows d)"
    using wf_db_ID_bound[OF assms(2)] by fastforce
  have dist: "distinct (map ID (rows ?d'))" using wf' by (rule wf_db_distinct)
  show ?thesis
    using c cj wf' pos new dist by simp
qed

theorem C4_create_returns_input_with_new_id_witness:
  "time_Parse (DueDate milk) \<noteq> None \<and> wf_db one_task_db \<and> \<not> fst (driver_call one_task_db) \<and>
   seq one_task_db < 9223372036854775807 \<and>
   (\<exists>task d'. createTask example_engine (Some milk) one_task_db = ((StatusCreated, JSON_Task task), d') \<and>
           Title task = Title milk \<and> Description task = Description milk \<and>
           DueDate task = DueDate milk \<and> Status task = Status milk \<and>
           0 < ID task \<and> seq one_task_db < ID task \<and> ID task \<notin> ID ` set (rows one_task_db) \<and>
           rows d' = rows one_task_db @ [task] \<and> distinct (map ID (rows d')) \<and> wf_db d' \<and>
           createTask example_engine (Some (milk\<lparr>ID := 42\<rparr>)) one_task_db = createTask example_engine (Some milk) one_task_db)"
proof -
  have 1: "time_Parse (DueDate milk) \<noteq> None" by (simp add: time_Parse_milk)
  have 3: "\<not> fst (driver_call one_task_db)" by (simp add: driver_call_def one_task_db_def)
  have 4: "seq one_task_db < 9223372036854775807" by (simp add: one_task_db_def)
  from C4_create_returns_input_with_new_id[where eng = example_engine and j = 42, OF 1 wf_db_one_task 3 4] 1 wf_db_one_task 3 4
  show ?thesis by simp
qed

text \<open>
  C5 does not hold of the code. An Update of an existing id on a store that works does
  overwrite title, description and status with the payload's values, keeps the id, and
  answers with the row as it is read back, which a Retrieve afterwards repeats
  (\<open>updateTask_then_retrieve\<close>). But the due_date that is read back is not the
  payload's: the column is declared \<^verbatim>\<open>DATE\<close>, the driver reads it as a time and
  \<^verbatim>\<open>Scan\<close> formats that time. On the store that holds the example task under key 1,
  an Update with the due_date \<^verbatim>\<open>2025-03-10\<close> stores that text, and both its answer
  and the Retrieve that follows carry \<^verbatim>\<open>2025-03-10T00:00:00Z\<close>.
\<close>

theorem C5_update_reads_back_another_due_date:
  "DueDate (milk\<lparr>Title := ''Buy oat milk'', Status := ''done''\<rparr>) = ''2025-03-10'' \<and>
   updateTask (sqlite_key other) eng ''1''
       (Some (milk\<lparr>Title := ''Buy oat milk'', Status := ''done''\<rparr>)) one_task_db =
     ((StatusOK,
       JSON_Task (milk\<lparr>Title := ''Buy oat milk'', Status := ''done'', ID := 1,
                       DueDate := ''2025-03-10T00:00:00Z''\<rparr>)),
      one_task_db\<lparr>rows := [milk\<lparr>Title := ''Buy oat milk'', Status := ''done'', ID := 1\<rparr>]\<rparr>) \<and>
   fst (retrieveTask (sqlite_key other) eng ''1''
          (one_task_db\<lparr>rows := [milk\<lparr>Title := ''Buy oat milk'', Status := ''done'', ID := 1\<rparr>]\<rparr>)) =
     (StatusOK,
      JSON_Task (milk\<lparr>Title := ''Buy oat milk'', Status := ''done'', ID := 1,
                      DueDate := ''2025-03-10T00:00:00Z''\<rparr>))"
proof -
  have a: "date_affinity eng ''2025-03-10'' = ''2025-03-10''"
    using date_affinity_date[of "''2025-03-10''" _ eng] time_Parse_milk by (simp add: milk_def)
  show ?thesis
    by (simp add: updateTask_def retrieveTask_def db_QueryRow_Scan_def db_Exec_update_def
        driver_call_def where_id_def sqlite_key_1 one_task_db_def milk_def Scan_row_def
        date_Scan_milk a)
qed



text \<open>
  C7. On a store that works, Delete of an id that has a row is answered with status 200
  and removes exactly the rows with that key; a Retrieve of the id afterwards is answered
  with status 404 (NotFound), and so is a second Delete. Delete of an id that matches no
  row affects no row and is answered with status 404. When the driver fails the answer is
  status 500 (StoreFailure) and the table is unchanged.
\<close>

theorem C7_delete_removes_or_reports:
  "(key_of taskID = Some i \<and> stored d i \<noteq> None \<and> healthy d \<longrightarrow>
      (\<exists>d'. deleteTask key_of taskID d =
               ((StatusOK, H_message ''Task deleted successfully''), d') \<and>
            rows d' = filter (\<lambda>r. ID r \<noteq> i) (rows d) \<and> stored d' i = None \<and>
            fst (retrieveTask key_of eng taskID d') = (StatusNotFound, H_error ''Task not found'') \<and>
            fst (deleteTask key_of taskID d') = (StatusNotFound, H_error ''Task not found''))) \<and>
   (filter (where_id key_of taskID) (rows d) = [] \<and> \<not> fst (driver_call d) \<longrightarrow>
      deleteTask key_of taskID d =
        ((StatusNotFound, H_error ''Task not found''), snd (driver_call d)) \<and>
      rows (snd (deleteTask key_of taskID d)) = rows d) \<and>
   (fst (driver_call d) \<longrightarrow>
      deleteTask key_of taskID d =
        ((StatusInternalServerError, H_error ''Failed to delete task''), snd (driver_call d)) \<and>
      rows (snd (deleteTask key_of taskID d)) = rows d)"
proof (intro conjI impI)
  assume a: "key_of taskID = Some i \<and> stored d i \<noteq> None \<and> healthy d"
  let ?d' = "(snd (driver_call d))\<lparr>rows := filter (\<lambda>r. ID r \<noteq> i) (rows d)\<rparr>"
  note h0 = driver_call_healthy[OF a[THEN conjunct2, THEN conjunct2]]
  have del: "deleteTask key_of taskID d =
      ((StatusOK, H_message ''Task deleted successfully''), ?d')"
    using a h0 by (simp add: deleteTask_eq)
  have st: "stored ?d' i = None" by (simp add: stored_remove)
  have "healthy ?d'" using h0 by simp
  note h' = driver_call_healthy[OF this]
  have r: "fst (retrieveTask key_of eng taskID ?d') = (StatusNotFound, H_error ''Task not found'')"
    using a st by (simp add: retrieveTask_eq)
  have d2: "fst (deleteTask key_of taskID ?d') = (StatusNotFound, H_error ''Task not found'')"
    using a st h' by (simp add: deleteTask_eq)
  from del st r d2
  show "\<exists>d'. deleteTask key_of taskID d =
               ((StatusOK, H_message ''Task deleted successfully''), d') \<and>
            rows d' = filter (\<lambda>r. ID r \<noteq> i) (rows d) \<and> stored d' i = None \<and>
            fst (retrieveTask key_of eng taskID d') = (StatusNotFound, H_error ''Task not found'') \<and>
            fst (deleteTask key_of taskID d') = (StatusNotFound, H_error ''Task not found'')"
    by simp
next
  assume a: "filter (where_id key_of taskID) (rows d) = [] \<and> \<not> fst (driver_call d)"
  then show del: "deleteTask key_of taskID d =
        ((StatusNotFound, H_error ''Task not found''), snd (driver_call d))"
    by (cases "key_of taskID") (simp_all add: deleteTask_eq filter_where_id_stored)
  then show "rows (snd (deleteTask key_of taskID d)) = rows d" by simp
next
  assume a: "fst (driver_call d)"
  then show del: "deleteTask key_of taskID d =
        ((StatusInternalServerError, H_error ''Failed to delete task''), snd (driver_call d))"
    by (simp add: deleteTask_eq)
  then show "rows (snd (deleteTask key_of taskID d)) = rows d" by simp
qed

theorem C7_delete_removes_or_reports_witness:
  "(example_key ''1'' = Some 1 \<and> stored one_task_db 1 \<noteq> None \<and> healthy one_task_db \<and>
      (\<exists>d'. deleteTask example_key ''1'' one_task_db =
               ((StatusOK, H_message ''Task deleted successfully''), d') \<and>
            rows d' = [] \<and>
            fst (retrieveTask example_key example_engine ''1'' d') = (StatusNotFound, H_error ''Task not found'') \<and>
            fst (deleteTask example_key ''1'' d') = (StatusNotFound, H_error ''Task not found''))) \<and>
   (filter (where_id example_key ''2'') (rows one_task_db) = [] \<and>
    \<not> fst (driver_call one_task_db) \<and>
    fst (deleteTask example_key ''2'' one_task_db) = (StatusNotFound, H_error ''Task not found'') \<and>
    rows (snd (deleteTask example_key ''2'' one_task_db)) = rows one_task_db) \<and>
   (fst (driver_call (one_task_db\<lparr>faults := [True]\<rparr>)) \<and>
    fst (deleteTask example_key ''1'' (one_task_db\<lparr>faults := [True]\<rparr>)) =
      (StatusInternalServerError, H_error ''Failed to delete task'') \<and>
    rows (snd (deleteTask example_key ''1'' (one_task_db\<lparr>faults := [True]\<rparr>))) = rows one_task_db)"
proof -
  have s: "stored one_task_db 1 \<noteq> None"
    by (simp add: stored_def one_task_db_def)
  have r: "filter (\<lambda>r. ID r \<noteq> 1) (rows one_task_db) = []"
    by (simp add: one_task_db_def)
  have n: "filter (where_id example_key ''2'') (rows one_task_db) = []"
    by (simp add: where_id_def example_key_2 one_task_db_def)
  have ok: "\<not> fst (driver_call one_task_db)"
    by (simp add: driver_call_def one_task_db_def)
  have f: "fst (driver_call (one_task_db\<lparr>faults := [True]\<rparr>))"
    by (simp add: driver_call_def)
  have 1: "\<exists>d'. deleteTask example_key ''1'' one_task_db =
               ((StatusOK, H_message ''Task deleted successfully''), d') \<and>
            rows d' = [] \<and>
            fst (retrieveTask example_key example_engine ''1'' d') = (StatusNotFound, H_error ''Task not found'') \<and>
            fst (deleteTask example_key ''1'' d') = (StatusNotFound, H_error ''Task not found'')"
    using C7_delete_removes_or_reports[where key_of = example_key and taskID = "''1''" and i = 1 and d = one_task_db
        and eng = example_engine]
      example_key_1 s healthy_one_task r by auto
  have 2: "fst (deleteTask example_key ''2'' one_task_db) =
              (StatusNotFound, H_error ''Task not found'') \<and>
           rows (snd (deleteTask example_key ''2'' one_task_db)) = rows one_task_db"
    using C7_delete_removes_or_reports[where key_of = example_key and taskID = "''2''" and i = 2 and d = one_task_db
        and eng = example_engine] n ok by simp
  have 3: "fst (deleteTask example_key ''1'' (one_task_db\<lparr>faults := [True]\<rparr>)) =
      (StatusInternalServerError, H_error ''Failed to delete task'') \<and>
    rows (snd (deleteTask example_key ''1'' (one_task_db\<lparr>faults := [True]\<rparr>))) = rows one_task_db"
    using C7_delete_removes_or_reports[where key_of = example_key and taskID = "''1''" and i = 1
        and d = "one_task_db\<lparr>faults := [True]\<rparr>" and eng = example_engine] f
    by simp
  from example_key_1 s healthy_one_task 1 n ok 2 f 3 show ?thesis by blast
qed

text \<open>
  C8 does not hold of the code. What the table holds under a key is what was last written
  there (\<open>serve_last_written\<close>), and Retrieve answers with that row as \<^verbatim>\<open>Scan\<close>
  reads it (\<open>retrieve_last_written\<close>): id, title, description and status as written. The
  due_date is not returned as written. On a fresh store, a Create of the example task is
  answered with its due_date \<^verbatim>\<open>2025-03-10\<close>, and the Retrieve of the new id that
  follows is answered with \<^verbatim>\<open>2025-03-10T00:00:00Z\<close>: the column is declared
  \<^verbatim>\<open>DATE\<close>, the driver reads it as a time and \<^verbatim>\<open>Scan\<close> formats that time.
\<close>

theorem C8_retrieve_answers_another_due_date:
  "DueDate milk = ''2025-03-10'' \<and>
   serve (sqlite_key other) eng [POST_MANAGEMENT (Some milk), GET_MANAGEMENT_id ''1'']
     (fresh_db []) =
     ([(POST_MANAGEMENT (Some milk), (StatusCreated, JSON_Task (milk\<lparr>ID := 1\<rparr>))),
       (GET_MANAGEMENT_id ''1'',
        (StatusOK, JSON_Task (milk\<lparr>ID := 1, DueDate := ''2025-03-10T00:00:00Z''\<rparr>)))],
      \<lparr>rows = [milk\<lparr>ID := 1\<rparr>], seq = 1, faults = []\<rparr>)"
proof -
  have p: "time_Parse ''2025-03-10'' = Some \<lparr>year = 2025, month = 3, day = 10\<rparr>"
    using time_Parse_milk by (simp add: milk_def)
  have f: "time_Format \<lparr>year = 2025, month = 3, day = 10\<rparr> = ''2025-03-10''"
    using time_Format_Parse[OF p] .
  have a: "date_affinity eng ''2025-03-10'' = ''2025-03-10''"
    using date_affinity_date[OF p] .
  show ?thesis
    by (simp add: createTask_def retrieveTask_def db_Exec_insert_def db_QueryRow_Scan_def
        driver_call_def where_id_def sqlite_key_1 fresh_db_def milk_def p f a Scan_row_def
        date_Scan_milk)
qed




text \<open>
  C10. Retrieve and ListAll are read-only: whatever the store holds, whatever the path
  parameter and whether or not the driver fails, the table and the key counter after the
  handler are those before it.
\<close>

theorem C10_retrieve_and_list_are_read_only:
  "rows (snd (retrieveTask key_of eng taskID d)) = rows d \<and>
   seq (snd (retrieveTask key_of eng taskID d)) = seq d \<and>
   rows (snd (listAllTasks eng d)) = rows d \<and>
   seq (snd (listAllTasks eng d)) = seq d"
  by (simp add: retrieveTask_eq split: option.splits)

end
